theory Spec2Isabelle
  imports Main "HOL-Library.Word"
begin

section \<open>Indices, matrices and vectors\<close>

text \<open>
  The routines are templates over a matrix type and take their index type from it
  (\<^verbatim>\<open>using idx_t = size_type<matrix_t>\<close>). The index type is an unsigned machine
  integer: the example driver of the repository declares \<^verbatim>\<open>using idx_t = std::size_t\<close>,
  and the block loop of \<^verbatim>\<open>unglq\<close> stops at \<^verbatim>\<open>i != idx_t(-nb)\<close>, the value an unsigned
  counter wraps to. It is modelled as a 64-bit word: \<open>+\<close>, \<open>-\<close> and \<open>*\<close> wrap around,
  \<open><\<close> and \<open>\<le>\<close> compare unsigned values, \<open>div\<close> is unsigned division. (With a signed
  index type the runs described below are the same, except that \<^verbatim>\<open>k - 1\<close> at \<open>k = 0\<close>
  is then \<open>-1\<close> and not the largest index.)

  A matrix is a view: its extents and an element accessor \<^verbatim>\<open>A(i,j)\<close>. The accessor is
  a total function of the two indices; the routines only ever address the cells their
  loops reach, which is what the theorems below describe.
\<close>

type_synonym idx_t = "64 word"

type_synonym 'a cells = "idx_t \<Rightarrow> idx_t \<Rightarrow> 'a"

record 'a matrix =
  nrows :: idx_t
  ncols :: idx_t
  entries :: "'a cells"

record 'a vector =
  size_vec :: idx_t
  elems :: "idx_t \<Rightarrow> 'a"

text \<open>The assignment \<^verbatim>\<open>A(i,j) = v\<close>.\<close>

definition put :: "idx_t \<Rightarrow> idx_t \<Rightarrow> 'a \<Rightarrow> 'a cells \<Rightarrow> 'a cells" where
  "put i j v E = E(i := (E i)(j := v))"

text \<open>
  The counting loop \<^verbatim>\<open>for (idx_t x = a; x < b; ++x) body\<close> over a state \<open>s\<close>.
  It terminates because \<open>x < b\<close> keeps \<open>x + 1\<close> from wrapping.
\<close>

function for_loop :: "idx_t \<Rightarrow> idx_t \<Rightarrow> (idx_t \<Rightarrow> 's \<Rightarrow> 's) \<Rightarrow> 's \<Rightarrow> 's" where
  "for_loop x b body s = (if x < b then for_loop (x + 1) b body (body x s) else s)"
  by pat_completeness auto
termination
  apply (relation "measure (\<lambda>(x, b, body, s). unat b - unat x)")
   apply simp
  apply clarsimp
  apply unat_arith
  done

declare for_loop.simps [simp del]

text \<open>
  \<^verbatim>\<open>slice(A, range{r0, r1}, range{c0, c1})\<close> is a view of the rows \<open>r0..r1-1\<close> and columns
  \<open>c0..c1-1\<close> of \<open>A\<close> on the same storage. A kernel that is handed such a view and
  writes through it changes exactly those cells of \<open>A\<close>: \<open>store\<close> puts the view's
  contents back.
\<close>

definition slice :: "'a matrix \<Rightarrow> idx_t \<times> idx_t \<Rightarrow> idx_t \<times> idx_t \<Rightarrow> 'a matrix" where
  "slice A rows cols =
     \<lparr>nrows = snd rows - fst rows, ncols = snd cols - fst cols,
      entries = (\<lambda>i j. entries A (fst rows + i) (fst cols + j))\<rparr>"

definition store :: "idx_t \<times> idx_t \<Rightarrow> idx_t \<times> idx_t \<Rightarrow> 'a matrix \<Rightarrow> 'a matrix \<Rightarrow> 'a matrix" where
  "store rows cols S A =
     A\<lparr>entries := (\<lambda>i j.
        if fst rows \<le> i \<and> i < snd rows \<and> fst cols \<le> j \<and> j < snd cols
        then entries S (i - fst rows) (j - fst cols) else entries A i j)\<rparr>"

definition slice_vec :: "'a vector \<Rightarrow> idx_t \<times> idx_t \<Rightarrow> 'a vector" where
  "slice_vec v r = \<lparr>size_vec = snd r - fst r, elems = (\<lambda>i. elems v (fst r + i))\<rparr>"

datatype error = Blas_Error | Invalid_Argument | Division_By_Zero

section \<open>laset\<close>

text \<open>
  \<^verbatim>\<open>include/lapack/laset.hpp\<close>. The argument \<^verbatim>\<open>uplo\<close> has a template type; the routine
  compares it with \<^verbatim>\<open>Uplo::Lower\<close>, \<^verbatim>\<open>Uplo::Upper\<close> and \<^verbatim>\<open>Uplo::General\<close> and fails on
  anything else, which \<open>Other_Uplo\<close> stands for.
\<close>

datatype Uplo = Upper | Lower | General | Other_Uplo

definition laset :: "Uplo \<Rightarrow> 'a \<Rightarrow> 'a \<Rightarrow> 'a matrix \<Rightarrow> error + 'a matrix" where
  "laset uplo alpha beta A =
     (let m = nrows A; n = ncols A in
      if uplo \<noteq> Lower \<and> uplo \<noteq> Upper \<and> uplo \<noteq> General then Inl Blas_Error
      else
        let E1 =
              (if uplo = Upper then
                 for_loop 1 n (\<lambda>j. let M = min m j in for_loop 0 M (\<lambda>i. put i j alpha))
                   (entries A)
               else if uplo = Lower then
                 (let N = min m n in
                  for_loop 0 N (\<lambda>j. for_loop (j + 1) m (\<lambda>i. put i j alpha)) (entries A))
               else
                 for_loop 0 n (\<lambda>j. for_loop 0 m (\<lambda>i. put i j alpha)) (entries A));
            N = min m n
        in Inr (A\<lparr>entries := for_loop 0 N (\<lambda>i. put i i beta) E1\<rparr>))"

section \<open>Argument checks\<close>

text \<open>
  Modelled from the spec: the macro \<^verbatim>\<open>tlapack_check_false\<close> is not among the sources.
  The spec has an argument-validation failure detected before any mutation and returned
  at once, signalled by a negative result code selected by the index of the violated
  argument (the legacy interface, whose header documents \<^verbatim>\<open>@return -i if the ith
  argument is invalid\<close>) or by an explicit invalid-argument failure. The check yields the
  failure to leave with when its condition holds, and nothing when it does not.
\<close>

definition tlapack_check_false :: "bool \<Rightarrow> 'e \<Rightarrow> 'e option" where
  "tlapack_check_false cond failure = (if cond then Some failure else None)"

section \<open>The legacy wrapper ung2r\<close>

text \<open>
  \<^verbatim>\<open>include/legacy_api/lapack/ung2r.hpp\<close>. The wrapper compares its extents with zero, so
  they are modelled as integers (an unsigned index type is the case of non-negative
  arguments). The array \<^verbatim>\<open>A\<close> is a value of an arbitrary type \<open>'mem\<close>; the routine
  \<^verbatim>\<open>ung2r(k, A_, _tau, _work)\<close> of \<^verbatim>\<open>lapack/ung2r.hpp\<close>, which is not among the sources, is
  the parameter \<open>core\<close>: from \<open>k\<close>, the column-major view \<open>(m, n, lda)\<close> of the array,
  \<open>tau\<close> with the length \<open>min(m, n)\<close> of its view and the length \<open>n - 1\<close> of the work
  vector it yields its result code and the array as it leaves it. The wrapper returns
  the result code together with the array.
\<close>

definition ung2r ::
  "(int \<Rightarrow> int \<times> int \<times> int \<Rightarrow> 'mem \<Rightarrow> 'tau \<times> int \<Rightarrow> int \<Rightarrow> int \<times> 'mem) \<Rightarrow>
   int \<Rightarrow> int \<Rightarrow> int \<Rightarrow> 'mem \<Rightarrow> int \<Rightarrow> 'tau \<Rightarrow> int \<times> 'mem" where
  "ung2r core m n k A lda tau =
     (case tlapack_check_false (m < 0) (- 1) of Some info \<Rightarrow> (info, A) | None \<Rightarrow>
     (case tlapack_check_false (n < 0 \<or> n > m) (- 2) of Some info \<Rightarrow> (info, A) | None \<Rightarrow>
     (case tlapack_check_false (k < 0 \<or> k > n) (- 3) of Some info \<Rightarrow> (info, A) | None \<Rightarrow>
     (case tlapack_check_false (lda < m) (- 5) of Some info \<Rightarrow> (info, A) | None \<Rightarrow>
      if n \<le> 0 then (0, A)
      else core k (m, n, lda) A (tau, min m n) (n - 1)))))"

section \<open>unglq\<close>

text \<open>
  \<^verbatim>\<open>include/tlapack/lapack/unglq.hpp\<close>. Of the options only the block size matters here
  (the inherited workspace option \<^verbatim>\<open>opts.work\<close> is an optional buffer for the scratch
  memory).
\<close>

record UnglqOpts =
  opt_nb :: idx_t

definition default_opts :: UnglqOpts where
  "default_opts = \<lparr>opt_nb = 32\<rparr>"

text \<open>
  The workspace query. The class \<^verbatim>\<open>WorkInfo\<close>, its operator \<^verbatim>\<open>+=\<close> and the query
  \<^verbatim>\<open>larfb_worksize\<close> are not among the sources: a \<open>WorkInfo\<close> is the pair of extents its
  constructor is given, and the operator (\<open>add_work\<close>), the query of \<^verbatim>\<open>larfb\<close> and the
  element size \<^verbatim>\<open>sizeof(T)\<close> are parameters.
\<close>

record WorkInfo =
  wi_m :: idx_t
  wi_n :: idx_t

definition unglq_worksize ::
  "idx_t \<Rightarrow> (WorkInfo \<Rightarrow> WorkInfo \<Rightarrow> WorkInfo) \<Rightarrow>
   ('a matrix \<Rightarrow> 'a matrix \<Rightarrow> 'a matrix \<Rightarrow> UnglqOpts \<Rightarrow> WorkInfo) \<Rightarrow>
   'a matrix \<Rightarrow> 'a vector \<Rightarrow> UnglqOpts \<Rightarrow> WorkInfo" where
  "unglq_worksize sizeof_T add_work larfb_worksize A tau opts =
     (let k = size_vec tau;
          nb = min (opt_nb opts) k;
          workinfo = \<lparr>wi_m = nb * sizeof_T, wi_n = nb\<rparr>;
          m = nrows A;
          V = slice A (0, nb) (0, m);
          matrixT = slice A (0, nb) (0, nb)
      in add_work workinfo (larfb_worksize V matrixT A opts))"

text \<open>
  The kernels \<^verbatim>\<open>larft\<close>, \<^verbatim>\<open>larfb\<close> and \<^verbatim>\<open>ungl2\<close> are not among the sources and are
  parameters. They are routines with effects: besides the view it writes, a kernel may
  read and change memory of its own (the spare workspace that \<^verbatim>\<open>larfb\<close> and \<^verbatim>\<open>ungl2\<close>
  are handed, for one). That memory is the world \<open>'w\<close>, and each call starts from the
  world the call before it left. So \<open>larft V taui matrixTi w\<close> gives the new \<open>matrixTi\<close>
  and the new world, \<open>larfb V matrixTi C w\<close> the new \<open>C\<close> and the new world,
  \<open>ungl2 Ai taui w\<close> the new \<open>Ai\<close> and the new world (their constant mode arguments are
  left out, and \<^verbatim>\<open>unglq\<close> ignores their result codes).
\<close>

record ('a, 'w) kernels =
  larft :: "'a matrix \<Rightarrow> 'a vector \<Rightarrow> 'a matrix \<Rightarrow> 'w \<Rightarrow> 'a matrix \<times> 'w"
  larfb :: "'a matrix \<Rightarrow> 'a matrix \<Rightarrow> 'a matrix \<Rightarrow> 'w \<Rightarrow> 'a matrix \<times> 'w"
  ungl2 :: "'a matrix \<Rightarrow> 'a vector \<Rightarrow> 'w \<Rightarrow> 'a matrix \<times> 'w"

text \<open>
  The state of a run: the matrix \<open>A\<close>, the scratch matrix \<open>matrixT\<close>, and the world of
  the kernels.
\<close>

record ('a, 'w) unglq_state =
  mat :: "'a matrix"
  matrixT :: "'a matrix"
  world :: 'w

text \<open>
  Lines 156 to 163: rows \<open>k..m-1\<close> are initialised, column by column. The comparison
  \<^verbatim>\<open>j > k - 1\<close> is made in \<open>idx_t\<close>.
\<close>

definition unglq_seed :: "idx_t \<Rightarrow> idx_t \<Rightarrow> idx_t \<Rightarrow> 'a::{zero,one} cells \<Rightarrow> 'a cells" where
  "unglq_seed m n k E =
     (if m > k then
        for_loop 0 n (\<lambda>j E1.
          let E2 = for_loop k m (\<lambda>i. put i j 0) E1
          in if j < m \<and> j > k - 1 then put j j 1 E2 else E2) E
      else E)"

text \<open>
  The body of the block loop, lines 166 to 188, for the block that starts at \<open>i\<close>.
\<close>

definition unglq_block ::
  "('a::{zero,one}, 'w) kernels \<Rightarrow> 'a vector \<Rightarrow> idx_t \<Rightarrow> idx_t \<Rightarrow>
   ('a, 'w) unglq_state \<Rightarrow> ('a, 'w) unglq_state" where
  "unglq_block K tau nb i s =
     (let m = nrows (mat s); n = ncols (mat s); k = size_vec tau;
          ib = min nb (k - i);
          taui = slice_vec tau (i, i + ib);
          s1 =
            (if i + ib < m then
               let V = slice (mat s) (i, i + ib) (i, n);
                   matrixTi = slice (matrixT s) (0, ib) (0, ib);
                   C = slice (mat s) (i + ib, m) (i, n);
                   (Ti1, w1) = larft K V taui matrixTi (world s);
                   T1 = store (0, ib) (0, ib) Ti1 (matrixT s);
                   (C1, w2) = larfb K V (slice T1 (0, ib) (0, ib)) C w1
               in s\<lparr>mat := store (i + ib, m) (i, n) C1 (mat s), matrixT := T1, world := w2\<rparr>
             else s);
          Ai = slice (mat s1) (i, i + ib) (i, n);
          (Ai1, w3) = ungl2 K Ai taui (world s1);
          A2 = store (i, i + ib) (i, n) Ai1 (mat s1);
          A3 = A2\<lparr>entries :=
                  for_loop 0 i (\<lambda>j. for_loop i (i + ib) (\<lambda>l. put l j 0)) (entries A2)\<rparr>
      in s1\<lparr>mat := A3, world := w3\<rparr>)"

text \<open>
  The block loop \<^verbatim>\<open>for (...; i != idx_t(-nb); i = i - nb)\<close>. For a start index that is
  not a multiple of \<open>nb\<close> the counter never meets \<open>- nb\<close>, so the loop is a partial
  function: \<open>None\<close> is a run that does not end.
\<close>

partial_function (option) unglq_loop ::
  "('a::{zero,one}, 'w) kernels \<Rightarrow> 'a vector \<Rightarrow> idx_t \<Rightarrow> idx_t \<Rightarrow> ('a, 'w) unglq_state \<Rightarrow>
   ('a, 'w) unglq_state option" where
  "unglq_loop K tau nb i s =
     (if i \<noteq> - nb then unglq_loop K tau nb (i - nb) (unglq_block K tau nb i s)
      else Some s)"

declare unglq_loop.simps [code]

text \<open>
  \<^verbatim>\<open>unglq\<close>. The result is what the call leaves with (an error, or the returned code)
  together with the state it leaves behind; \<open>A\<close> is passed by reference, so what was
  written before a failure stays written. The scratch matrix \<open>matrixT\<close> is carved out of
  freshly acquired workspace (\<^verbatim>\<open>alloc_workspace\<close> and \<^verbatim>\<open>new_matrix\<close> are not among the
  sources); its contents \<open>W\<close> at that point are a parameter, and for a call that
  leaves before the scratch matrix exists the state holds the matrix it would have been.
  The world the kernels find at the first call is the parameter \<open>w\<close>.
  The start index of the
  loop divides by \<open>nb\<close>, which C++ leaves undefined for \<open>nb = 0\<close>: the model stops there
  with \<open>Division_By_Zero\<close>.
\<close>

definition unglq ::
  "('a::{zero,one}, 'w) kernels \<Rightarrow> 'a cells \<Rightarrow> 'a matrix \<Rightarrow> 'a vector \<Rightarrow> UnglqOpts \<Rightarrow> 'w \<Rightarrow>
   ((error + int) \<times> ('a, 'w) unglq_state) option" where
  "unglq K W A tau opts w =
     (let m = nrows A; n = ncols A; k = size_vec tau;
          nb = min (opt_nb opts) k;
          s0 = \<lparr>mat = A, matrixT = \<lparr>nrows = nb, ncols = nb, entries = W\<rparr>, world = w\<rparr>
      in case tlapack_check_false (k > n) Invalid_Argument of
           Some failure \<Rightarrow> Some (Inl failure, s0)
         | None \<Rightarrow>
             if n \<le> 0 then Some (Inr 0, s0)
             else
               let s1 = s0\<lparr>mat := A\<lparr>entries := unglq_seed m n k (entries A)\<rparr>\<rparr>
               in if nb = 0 then Some (Inl Division_By_Zero, s1)
                  else map_option (Pair (Inr 0))
                         (unglq_loop K tau nb (((k - 1) div nb) * nb) s1))"

text \<open>What a run leaves with, and the entry \<open>A(i,j)\<close> it leaves behind.\<close>

definition outcome ::
  "((error + int) \<times> ('a, 'w) unglq_state) option \<Rightarrow> (error + int) option" where
  "outcome run = map_option fst run"

definition entry_after ::
  "((error + int) \<times> ('a, 'w) unglq_state) option \<Rightarrow> idx_t \<Rightarrow> idx_t \<Rightarrow> 'a option" where
  "entry_after run i j = map_option (\<lambda>p. entries (mat (snd p)) i j) run"

section \<open>Observing the kernel calls\<close>

text \<open>
  The driver is observed at its kernels. \<open>recording n K\<close> are the kernels \<open>K\<close>, each
  of which also writes down, in a log kept beside the world of \<open>K\<close>, that it was called
  and on which views: a view of the columns \<open>i..n-1\<close> of a matrix with \<open>n\<close> columns has
  \<open>n - i\<close> columns, so \<open>n\<close> less the column count is the start index \<open>i\<close> of the block;
  the row count of the reflector view \<open>V\<close>, of the factor \<open>matrixTi\<close> and of the block
  \<open>Ai\<close> is its size \<open>ib\<close>; for \<open>larfb\<close> the row count of \<open>C\<close> is the number of trailing
  rows. The log holds a call only if the driver made it, and in the order the driver
  made the calls.
\<close>

datatype call = Larft idx_t idx_t | Larfb idx_t idx_t idx_t | Ungl2 idx_t idx_t

fun call_start :: "call \<Rightarrow> idx_t" where
  "call_start (Larft i ib) = i"
| "call_start (Larfb i ib rows) = i"
| "call_start (Ungl2 i ib) = i"

fun call_size :: "call \<Rightarrow> idx_t" where
  "call_size (Larft i ib) = ib"
| "call_size (Larfb i ib rows) = ib"
| "call_size (Ungl2 i ib) = ib"

definition recording :: "idx_t \<Rightarrow> ('a, 'w) kernels \<Rightarrow> ('a, 'w \<times> call list) kernels" where
  "recording n K =
     \<lparr>larft = (\<lambda>V taui matrixTi wl.
        let (Ti1, w1) = larft K V taui matrixTi (fst wl)
        in (Ti1, (w1, snd wl @ [Larft (n - ncols V) (nrows V)]))),
      larfb = (\<lambda>V matrixTi C wl.
        let (C1, w1) = larfb K V matrixTi C (fst wl)
        in (C1, (w1, snd wl @ [Larfb (n - ncols C) (nrows matrixTi) (nrows C)]))),
      ungl2 = (\<lambda>Ai taui wl.
        let (Ai1, w1) = ungl2 K Ai taui (fst wl)
        in (Ai1, (w1, snd wl @ [Ungl2 (n - ncols Ai) (nrows Ai)])))\<rparr>"

section \<open>The block order in the words of the specification\<close>

text \<open>
  The specification has the driver visit the blocks from the last to the first: the
  start indices are \<open>((k-1)/nb)*nb\<close>, then \<open>nb\<close> less each time, down to \<open>0\<close>. For
  the block at \<open>i\<close>, of \<open>ib = min(nb, k-i)\<close> reflectors, it builds the triangular factor
  and applies the block reflector to the \<open>m - (i + ib)\<close> trailing rows when a trailing
  part exists (\<open>i + ib < m\<close>), and then runs the unblocked expansion.
\<close>

definition block_starts :: "idx_t \<Rightarrow> idx_t \<Rightarrow> idx_t list" where
  "block_starts k nb = map (\<lambda>q. of_nat q * nb) (rev [0..<Suc (unat ((k - 1) div nb))])"

definition block_calls :: "idx_t \<Rightarrow> idx_t \<Rightarrow> idx_t \<Rightarrow> idx_t \<Rightarrow> call list" where
  "block_calls m k nb i =
     (let ib = min nb (k - i)
      in (if i + ib < m then [Larft i ib, Larfb i ib (m - (i + ib))] else []) @ [Ungl2 i ib])"

section \<open>Sample inputs\<close>

text \<open>
  Concrete kernels, matrices and vectors on which the theorems are instantiated. The
  sample kernels overwrite what they are given: \<open>larft\<close> fills the factor with 3,
  \<open>larfb\<close> adds the first entry of the factor to every entry of the trailing part,
  \<open>ungl2\<close> fills the block with 2; their world counts the calls.
\<close>

definition sample_kernels :: "(int, nat) kernels" where
  "sample_kernels =
     \<lparr>larft = (\<lambda>V taui Ti w. (Ti\<lparr>entries := (\<lambda>i j. 3)\<rparr>, Suc w)),
      larfb = (\<lambda>V Ti C w. (C\<lparr>entries := (\<lambda>i j. entries C i j + entries Ti 0 0)\<rparr>, Suc w)),
      ungl2 = (\<lambda>Ai taui w. (Ai\<lparr>entries := (\<lambda>i j. 2)\<rparr>, Suc w))\<rparr>"

definition sample_matrix :: "idx_t \<Rightarrow> idx_t \<Rightarrow> int matrix" where
  "sample_matrix m n = \<lparr>nrows = m, ncols = n, entries = (\<lambda>i j. 5)\<rparr>"

definition sample_tau :: "idx_t \<Rightarrow> int vector" where
  "sample_tau k = \<lparr>size_vec = k, elems = (\<lambda>i. 2)\<rparr>"

definition sample_work :: "int cells" where
  "sample_work = (\<lambda>i j. 0)"

definition sample_state :: "(int, nat) unglq_state" where
  "sample_state =
     \<lparr>mat = sample_matrix 5 5, matrixT = \<lparr>nrows = 2, ncols = 2, entries = sample_work\<rparr>,
      world = 0\<rparr>"

definition sample_core ::
  "int \<Rightarrow> int \<times> int \<times> int \<Rightarrow> int \<Rightarrow> unit \<times> int \<Rightarrow> int \<Rightarrow> int \<times> int" where
  "sample_core k view B t lwork = (0, B + k)"

section \<open>Facts about the counting loop\<close>

lemma idx_step_range:
  fixes x b y :: idx_t
  assumes "x < b"
  shows "(x + 1 \<le> y \<and> y < b) \<or> y = x \<longleftrightarrow> x \<le> y \<and> y < b"
  using assms by unat_arith

text \<open>
  A loop whose iteration \<open>x\<close> overwrites, with values that do not depend on the state,
  exactly the cells \<open>(r, c)\<close> with \<open>key r c = x\<close> and \<open>P r c\<close>: afterwards the cells with
  a key in \<open>a..b-1\<close> hold these values and every other cell is as before.
\<close>

lemma for_loop_cells:
  fixes G :: "idx_t \<Rightarrow> 'a cells \<Rightarrow> 'a cells"
  assumes G: "\<And>x E r c. G x E r c = (if key r c = x \<and> P r c then f r c else E r c)"
  shows "for_loop a b G E r c =
         (if a \<le> key r c \<and> key r c < b \<and> P r c then f r c else E r c)"
  using G
proof (induction a b G E rule: for_loop.induct)
  case (1 x b body s)
  note body = "1.prems"
  show ?case
  proof (cases "x < b")
    case True
    have "for_loop x b body s r c = for_loop (x + 1) b body (body x s) r c"
      using True by (subst for_loop.simps) simp
    also have "\<dots> = (if x + 1 \<le> key r c \<and> key r c < b \<and> P r c then f r c
                      else body x s r c)"
      using "1.IH" [OF True body] by simp
    also have "body x s r c = (if key r c = x \<and> P r c then f r c else s r c)"
      by (rule body)
    finally have eq: "for_loop x b body s r c =
        (if x + 1 \<le> key r c \<and> key r c < b \<and> P r c then f r c
         else if key r c = x \<and> P r c then f r c else s r c)" .
    show ?thesis
      unfolding eq using idx_step_range [OF True, of "key r c"] by auto
  next
    case False
    then show ?thesis by (subst for_loop.simps) auto
  qed
qed

lemma put_apply: "put i j v E r c = (if r = i \<and> c = j then v else E r c)"
  by (simp add: put_def)

text \<open>One column, rows \<open>a..b-1\<close>.\<close>

lemma column_fill:
  "for_loop a b (\<lambda>i. put i j v) E r c = (if a \<le> r \<and> r < b \<and> c = j then v else E r c)"
  by (rule for_loop_cells [where key = "\<lambda>r c. r" and P = "\<lambda>r c. c = j" and f = "\<lambda>r c. v"])
     (auto simp: put_apply)

text \<open>The diagonal, indices \<open>a..b-1\<close>.\<close>

lemma diagonal_fill:
  "for_loop a b (\<lambda>i. put i i v) E r c = (if a \<le> r \<and> r < b \<and> c = r then v else E r c)"
  by (rule for_loop_cells [where key = "\<lambda>r c. r" and P = "\<lambda>r c. c = r" and f = "\<lambda>r c. v"])
     (auto simp: put_apply)

section \<open>laset: which entries are written\<close>

lemma idx_pos_of_less: "(r::idx_t) < c \<Longrightarrow> 1 \<le> c"
  by unat_arith

lemma idx_succ_le_iff: "(c::idx_t) < m \<Longrightarrow> c + 1 \<le> r \<longleftrightarrow> c < r"
  by unat_arith

lemma upper_fill:
  "for_loop 1 n (\<lambda>j. for_loop 0 (min m j) (\<lambda>i. put i j v)) E r c =
     (if r < c \<and> r < m \<and> c < n then v else E r c)"
proof -
  have "for_loop 1 n (\<lambda>j. for_loop 0 (min m j) (\<lambda>i. put i j v)) E r c =
        (if 1 \<le> c \<and> c < n \<and> r < min m c then v else E r c)"
    by (rule for_loop_cells [where key = "\<lambda>r c. c" and P = "\<lambda>r c. r < min m c" and f = "\<lambda>r c. v"])
       (auto simp: column_fill Let_def)
  moreover have "(1 \<le> c \<and> c < n \<and> r < min m c) = (r < c \<and> r < m \<and> c < n)"
    using idx_pos_of_less [of r c] by auto
  ultimately show ?thesis by simp
qed

lemma lower_fill:
  "for_loop 0 (min m n) (\<lambda>j. for_loop (j + 1) m (\<lambda>i. put i j v)) E r c =
     (if c < r \<and> r < m \<and> c < n then v else E r c)"
proof -
  have "for_loop 0 (min m n) (\<lambda>j. for_loop (j + 1) m (\<lambda>i. put i j v)) E r c =
        (if 0 \<le> c \<and> c < min m n \<and> (c + 1 \<le> r \<and> r < m) then v else E r c)"
    by (rule for_loop_cells [where key = "\<lambda>r c. c" and P = "\<lambda>r c. c + 1 \<le> r \<and> r < m" and f = "\<lambda>r c. v"])
       (auto simp: column_fill)
  moreover have "(0 \<le> c \<and> c < min m n \<and> (c + 1 \<le> r \<and> r < m)) = (c < r \<and> r < m \<and> c < n)"
    using idx_succ_le_iff [of c m r] by auto
  ultimately show ?thesis by simp
qed

lemma general_fill:
  "for_loop 0 n (\<lambda>j. for_loop 0 m (\<lambda>i. put i j v)) E r c =
     (if r < m \<and> c < n then v else E r c)"
proof -
  have "for_loop 0 n (\<lambda>j. for_loop 0 m (\<lambda>i. put i j v)) E r c =
        (if 0 \<le> c \<and> c < n \<and> r < m then v else E r c)"
    by (rule for_loop_cells [where key = "\<lambda>r c. c" and P = "\<lambda>r c. r < m" and f = "\<lambda>r c. v"])
       (auto simp: column_fill)
  then show ?thesis by auto
qed

lemma laset_upper_entries:
  "laset Upper alpha beta A = Inr (A\<lparr>entries := (\<lambda>r c.
      if r = c \<and> r < min (nrows A) (ncols A) then beta
      else if r < c \<and> r < nrows A \<and> c < ncols A then alpha
      else entries A r c)\<rparr>)"
proof -
  have "\<And>E. for_loop 0 (min (nrows A) (ncols A)) (\<lambda>i. put i i beta) E =
      (\<lambda>r c. if r = c \<and> r < min (nrows A) (ncols A) then beta else E r c)"
    by (intro ext) (auto simp: diagonal_fill)
  then show ?thesis
    by (simp add: laset_def Let_def upper_fill cong: if_cong)
qed

lemma laset_lower_entries:
  "laset Lower alpha beta A = Inr (A\<lparr>entries := (\<lambda>r c.
      if r = c \<and> r < min (nrows A) (ncols A) then beta
      else if c < r \<and> r < nrows A \<and> c < ncols A then alpha
      else entries A r c)\<rparr>)"
proof -
  have "\<And>E. for_loop 0 (min (nrows A) (ncols A)) (\<lambda>i. put i i beta) E =
      (\<lambda>r c. if r = c \<and> r < min (nrows A) (ncols A) then beta else E r c)"
    by (intro ext) (auto simp: diagonal_fill)
  then show ?thesis
    by (simp add: laset_def Let_def lower_fill cong: if_cong)
qed

lemma laset_general_entries:
  "laset General alpha beta A = Inr (A\<lparr>entries := (\<lambda>r c.
      if r = c \<and> r < min (nrows A) (ncols A) then beta
      else if r < nrows A \<and> c < ncols A then alpha
      else entries A r c)\<rparr>)"
proof -
  have "\<And>E. for_loop 0 (min (nrows A) (ncols A)) (\<lambda>i. put i i beta) E =
      (\<lambda>r c. if r = c \<and> r < min (nrows A) (ncols A) then beta else E r c)"
    by (intro ext) (auto simp: diagonal_fill)
  then show ?thesis
    by (simp add: laset_def Let_def general_fill cong: if_cong)
qed


text \<open>
  Claim C9. With \<open>uplo = Upper\<close>, \<open>laset\<close> writes only entries strictly above the
  diagonal (inside the extents) and the first \<open>min(m,n)\<close> diagonal entries, so every
  entry strictly below the diagonal is left as it was; with \<open>uplo = Lower\<close> it writes
  only entries strictly below the diagonal and the first \<open>min(m,n)\<close> diagonal entries,
  so every entry strictly above the diagonal is left as it was.
\<close>

theorem laset_triangle_frame:
  "(case laset Upper alpha beta A of
      Inl e \<Rightarrow> False
    | Inr B \<Rightarrow>
        (\<forall>i j. j < i \<longrightarrow> entries B i j = entries A i j) \<and>
        (\<forall>i j. entries B i j \<noteq> entries A i j \<longrightarrow>
           (i < j \<and> i < nrows A \<and> j < ncols A) \<or> (i = j \<and> i < min (nrows A) (ncols A)))) \<and>
   (case laset Lower alpha beta A of
      Inl e \<Rightarrow> False
    | Inr B \<Rightarrow>
        (\<forall>i j. i < j \<longrightarrow> entries B i j = entries A i j) \<and>
        (\<forall>i j. entries B i j \<noteq> entries A i j \<longrightarrow>
           (j < i \<and> i < nrows A \<and> j < ncols A) \<or> (i = j \<and> i < min (nrows A) (ncols A))))"
  by (auto simp: laset_upper_entries laset_lower_entries)

text \<open>
  On a 3-by-3 matrix of fives, with \<open>alpha = 7\<close> and \<open>beta = 9\<close>: the entry \<open>(2,0)\<close>
  below the diagonal survives \<open>Upper\<close>, the entry \<open>(0,2)\<close> above it survives \<open>Lower\<close>.
\<close>

theorem laset_triangle_frame_witness:
  "(case laset Upper 7 9 (sample_matrix 3 3) of
      Inl e \<Rightarrow> False
    | Inr B \<Rightarrow> (0 :: idx_t) < 2 \<and> entries B 2 0 = entries (sample_matrix 3 3) 2 0 \<and>
        entries B 2 0 = 5) \<and>
   (case laset Lower 7 9 (sample_matrix 3 3) of
      Inl e \<Rightarrow> False
    | Inr B \<Rightarrow> (0 :: idx_t) < 2 \<and> entries B 0 2 = entries (sample_matrix 3 3) 0 2 \<and>
        entries B 0 2 = 5)"
  using laset_triangle_frame [where alpha = 7 and beta = 9 and A = "sample_matrix 3 3"]
  by (auto simp: sample_matrix_def split: sum.splits)

text \<open>
  Claim C10. After \<open>laset General alpha beta\<close> on an \<open>m\<close>-by-\<open>n\<close> matrix every
  off-diagonal entry is \<open>alpha\<close> and each of the first \<open>min(m,n)\<close> diagonal entries is
  \<open>beta\<close>, whatever \<open>alpha\<close> and \<open>beta\<close> are (the diagonal is assigned after the fill
  and overrides it). The extents are unchanged.
\<close>

theorem laset_general_values:
  "case laset General alpha beta A of
     Inl e \<Rightarrow> False
   | Inr B \<Rightarrow>
       nrows B = nrows A \<and> ncols B = ncols A \<and>
       (\<forall>i j. i < nrows A \<and> j < ncols A \<and> i \<noteq> j \<longrightarrow> entries B i j = alpha) \<and>
       (\<forall>i. i < min (nrows A) (ncols A) \<longrightarrow> entries B i i = beta)"
  by (simp add: laset_general_entries)

text \<open>On a 2-by-3 matrix of fives, once with \<open>alpha = beta\<close> and once with different values.\<close>

theorem laset_general_values_witness:
  "(case laset General 7 7 (sample_matrix 2 3) of
      Inl e \<Rightarrow> False
    | Inr B \<Rightarrow>
        (0 :: idx_t) < 2 \<and> (2 :: idx_t) < 3 \<and> (0 :: idx_t) \<noteq> 2 \<and> entries B 0 2 = 7 \<and>
        (1 :: idx_t) < min 2 3 \<and> entries B 1 1 = 7) \<and>
   (case laset General 7 9 (sample_matrix 2 3) of
      Inl e \<Rightarrow> False
    | Inr B \<Rightarrow> entries B 0 2 = 7 \<and> entries B 1 1 = 9)"
  using laset_general_values [where alpha = 7 and beta = 7 and A = "sample_matrix 2 3"]
    laset_general_values [where alpha = 7 and beta = 9 and A = "sample_matrix 2 3"]
  by (auto simp: sample_matrix_def split: sum.splits)

section \<open>unglq: the seeding of the rows beyond the reflectors\<close>

text \<open>
  The cells the seeding writes, and what it writes there. With at least one reflector the
  test \<^verbatim>\<open>j > k - 1\<close> is \<open>j \<ge> k\<close> and the rows \<open>k..m-1\<close> become rows of the unit matrix
  (\<open>unglq_seed_rows\<close>); with none, \<open>k - 1\<close> is the largest index, the test never holds
  and the rows become zero (\<open>unglq_seed_no_reflectors\<close>).
\<close>

lemma idx_gt_pred_iff: "(k::idx_t) \<noteq> 0 \<Longrightarrow> c > k - 1 \<longleftrightarrow> k \<le> c"
  by unat_arith

lemma idx_not_gt_max: "\<not> (c::idx_t) > 0 - 1"
  by (simp add: not_less)

lemma idx_pos_of_bound: "(r::idx_t) < m \<Longrightarrow> 0 < m"
  by unat_arith

lemma seed_column:
  fixes E :: "'a::{zero,one} cells"
  shows "(let E2 = for_loop k m (\<lambda>i. put i j 0) E
          in if j < m \<and> j > k - 1 then put j j 1 E2 else E2) r c =
         (if c = j \<and> ((k \<le> r \<and> r < m) \<or> (r = c \<and> c < m \<and> c > k - 1))
          then (if r = c \<and> c < m \<and> c > k - 1 then 1 else 0) else E r c)"
  by (auto simp: Let_def put_apply column_fill)

lemma unglq_seed_cells:
  fixes E :: "'a::{zero,one} cells"
  shows "unglq_seed m n k E r c =
     (if k < m \<and> c < n \<and> ((k \<le> r \<and> r < m) \<or> (r = c \<and> c < m \<and> c > k - 1))
      then (if r = c \<and> c < m \<and> c > k - 1 then 1 else 0) else E r c)"
proof (cases "k < m")
  case True
  have "for_loop 0 n (\<lambda>j E1.
          let E2 = for_loop k m (\<lambda>i. put i j 0) E1
          in if j < m \<and> j > k - 1 then put j j 1 E2 else E2) E r c =
        (if 0 \<le> c \<and> c < n \<and> ((k \<le> r \<and> r < m) \<or> (r = c \<and> c < m \<and> c > k - 1))
         then (if r = c \<and> c < m \<and> c > k - 1 then 1 else 0) else E r c)"
    by (rule for_loop_cells [where key = "\<lambda>r c. c"
          and P = "\<lambda>r c. (k \<le> r \<and> r < m) \<or> (r = c \<and> c < m \<and> c > k - 1)"
          and f = "\<lambda>r c. if r = c \<and> c < m \<and> c > k - 1 then 1 else 0"])
       (simp add: seed_column)
  then show ?thesis using True by (simp add: unglq_seed_def)
next
  case False
  then show ?thesis by (simp add: unglq_seed_def)
qed

lemma unglq_seed_rows:
  fixes E :: "'a::{zero,one} cells"
  assumes "k \<noteq> 0"
  shows "unglq_seed m n k E r c =
     (if k \<le> r \<and> r < m \<and> c < n then (if r = c then 1 else 0) else E r c)"
  using assms by (auto simp: unglq_seed_cells idx_gt_pred_iff)

lemma unglq_seed_no_reflectors:
  fixes E :: "'a::{zero,one} cells"
  shows "unglq_seed m n 0 E r c = (if r < m \<and> c < n then 0 else E r c)"
  using idx_not_gt_max idx_pos_of_bound [of r m] by (auto simp: unglq_seed_cells)

section \<open>unglq: the block loop\<close>

text \<open>
  The loop body keeps the extents, and run with recording kernels it adds to their log
  the calls of its block (\<open>unglq_block_log\<close>). Started at a multiple
  \<open>q * nb\<close> that is far enough from the wrap-around, the loop ends and has run the body
  at \<open>q * nb\<close>, \<open>(q-1) * nb\<close>, ..., \<open>0\<close>, in this order (\<open>unglq_loop_multiples\<close>); the
  start index \<open>((k-1)/nb)*nb\<close> of an accepted call is such a multiple
  (\<open>first_block_bound\<close>), which gives the whole run (\<open>unglq_run\<close>).
\<close>

lemma store_extents [simp]:
  "nrows (store rows cols S A) = nrows A" "ncols (store rows cols S A) = ncols A"
  by (simp_all add: store_def)

lemma unglq_block_extents:
  "nrows (mat (unglq_block K tau nb i s)) = nrows (mat s)"
  "ncols (mat (unglq_block K tau nb i s)) = ncols (mat s)"
  by (simp_all add: unglq_block_def Let_def split_def)

lemma unglq_block_matrixT_extents:
  "nrows (matrixT (unglq_block K tau nb i s)) = nrows (matrixT s)"
  "ncols (matrixT (unglq_block K tau nb i s)) = ncols (matrixT s)"
  by (simp_all add: unglq_block_def Let_def split_def)

text \<open>
  What the recording kernels write down during one pass of the loop body: the views the
  body hands them have the extents of the block at \<open>i\<close>.
\<close>

lemma slice_extents:
  "nrows (slice A (r0, r1) (c0, c1)) = r1 - r0" "ncols (slice A (r0, r1) (c0, c1)) = c1 - c0"
  by (simp_all add: slice_def)

lemma unglq_block_log:
  "snd (world (unglq_block (recording (ncols (mat s)) K) tau nb i s)) =
     snd (world s) @ block_calls (nrows (mat s)) (size_vec tau) nb i"
  by (simp add: unglq_block_def recording_def block_calls_def Let_def split_def slice_extents)

lemma fold_unglq_block:
  assumes "ncols (mat s) = n"
  shows "snd (world (fold (unglq_block (recording n K) tau nb) is s)) =
           snd (world s) @ concat (map (block_calls (nrows (mat s)) (size_vec tau) nb) is) \<and>
         nrows (mat (fold (unglq_block (recording n K) tau nb) is s)) = nrows (mat s) \<and>
         ncols (mat (fold (unglq_block (recording n K) tau nb) is s)) = n"
  using assms
proof (induction "is" arbitrary: s)
  case Nil
  then show ?case by simp
next
  case (Cons i "is")
  have step: "ncols (mat (unglq_block (recording n K) tau nb i s)) = n"
    using Cons.prems by (simp add: unglq_block_extents)
  have log: "snd (world (unglq_block (recording n K) tau nb i s)) =
      snd (world s) @ block_calls (nrows (mat s)) (size_vec tau) nb i"
    using unglq_block_log [of s K tau nb i] Cons.prems by simp
  show ?case
    using Cons.IH [OF step] by (simp add: log unglq_block_extents)
qed

lemma multiple_not_neg:
  fixes nb :: idx_t
  assumes "nb \<noteq> 0" "Suc q * unat nb < 2 ^ 64"
  shows "of_nat q * nb \<noteq> - nb"
proof
  assume "of_nat q * nb = - nb"
  then have "of_nat q * nb + nb = 0" by simp
  then have "(of_nat (Suc q * unat nb) :: idx_t) = 0" by (simp add: algebra_simps)
  then have "2 ^ LENGTH(64) dvd Suc q * unat nb" by (simp only: word_of_nat_eq_0_iff)
  then have "2 ^ 64 dvd Suc q * unat nb" by simp
  moreover have "0 < Suc q * unat nb" using assms(1) by (simp add: unat_gt_0)
  ultimately show False using assms(2) by (auto dest: dvd_imp_le)
qed

lemma unglq_loop_multiples:
  fixes nb :: idx_t
  assumes "nb \<noteq> 0" "Suc q * unat nb < 2 ^ 64"
  shows "unglq_loop K tau nb (of_nat q * nb) s =
         Some (fold (unglq_block K tau nb) (map (\<lambda>j. of_nat j * nb) (rev [0..<Suc q])) s)"
  using assms(2)
proof (induction q arbitrary: s)
  case 0
  have "unglq_loop K tau nb 0 s = unglq_loop K tau nb (0 - nb) (unglq_block K tau nb 0 s)"
    using assms(1) by (subst unglq_loop.simps) simp
  also have "\<dots> = Some (unglq_block K tau nb 0 s)"
    by (subst unglq_loop.simps) simp
  finally show ?case by simp
next
  case (Suc q)
  let ?i = "of_nat (Suc q) * nb :: idx_t"
  have ne: "?i \<noteq> - nb"
    using multiple_not_neg [OF assms(1) Suc.prems] .
  have less: "Suc q * unat nb < 2 ^ 64"
    using Suc.prems by simp
  have pred: "?i - nb = of_nat q * nb"
    by (simp add: algebra_simps)
  have "unglq_loop K tau nb ?i s = unglq_loop K tau nb (?i - nb) (unglq_block K tau nb ?i s)"
    using ne by (subst unglq_loop.simps) simp
  also have "\<dots> = Some (fold (unglq_block K tau nb) (map (\<lambda>j. of_nat j * nb) (rev [0..<Suc q]))
                       (unglq_block K tau nb ?i s))"
    unfolding pred by (rule Suc.IH [OF less])
  finally show ?case by simp
qed

lemma first_block_bound:
  fixes k nb :: idx_t
  assumes "k \<noteq> 0" "nb \<noteq> 0" "nb \<le> k" "unat k < 2 ^ 63"
  shows "Suc (unat ((k - 1) div nb)) * unat nb < 2 ^ 64"
proof -
  have k1: "unat (k - 1) = unat k - 1"
    using assms(1) by (simp add: unat_minus_one)
  have "unat ((k - 1) div nb) = (unat k - 1) div unat nb"
    by (simp add: unat_div k1)
  then have "unat ((k - 1) div nb) * unat nb \<le> unat k - 1"
    by simp
  moreover have "unat nb \<le> unat k"
    using assms(3) by (simp add: word_le_nat_alt)
  ultimately have "Suc (unat ((k - 1) div nb)) * unat nb \<le> (unat k - 1) + unat k"
    by simp
  also have "\<dots> < 2 ^ 64" using assms(4) by simp
  finally show ?thesis .
qed

lemma unglq_run:
  fixes A :: "'a::{zero,one} matrix"
  assumes "1 \<le> size_vec tau" "size_vec tau \<le> ncols A" "1 \<le> opt_nb opts"
    and "unat (size_vec tau) < 2 ^ 63"
  defines "nb \<equiv> min (opt_nb opts) (size_vec tau)"
  shows "unglq K W A tau opts w =
     Some (Inr 0,
       fold (unglq_block K tau nb) (block_starts (size_vec tau) nb)
         \<lparr>mat = A\<lparr>entries := unglq_seed (nrows A) (ncols A) (size_vec tau) (entries A)\<rparr>,
          matrixT = \<lparr>nrows = nb, ncols = nb, entries = W\<rparr>, world = w\<rparr>)"
proof -
  let ?k = "size_vec tau"
  have k0: "?k \<noteq> 0" using assms(1) by auto
  have nb0: "nb \<noteq> 0" using assms(1,3) by (auto simp: nb_def min_def)
  have nbk: "nb \<le> ?k" by (simp add: nb_def)
  have n0: "\<not> ncols A \<le> 0" using assms(1,2) by auto
  have bound: "Suc (unat ((?k - 1) div nb)) * unat nb < 2 ^ 64"
    by (rule first_block_bound [OF k0 nb0 nbk assms(4)])
  have start: "((?k - 1) div nb) * nb = of_nat (unat ((?k - 1) div nb)) * nb"
    by simp
  show ?thesis
    using assms(2) n0 nb0
    by (simp add: unglq_def tlapack_check_false_def Let_def nb_def [symmetric] not_less
        start unglq_loop_multiples [OF nb0 bound] block_starts_def del: of_nat_unat)
qed



lemma block_starts_ends:
  "hd (block_starts k nb) = ((k - 1) div nb) * nb" "last (block_starts k nb) = 0"
  by (simp_all add: block_starts_def hd_map last_map hd_rev last_rev del: upt_Suc)

lemma block_calls_sizes:
  "c \<in> set (block_calls m k nb i) \<Longrightarrow> call_start c = i \<and> call_size c = min nb (k - i)"
  by (auto simp: block_calls_def Let_def split: if_splits)

lemma last_block_calls:
  assumes "is \<noteq> []"
  shows "last (concat (map (block_calls m k nb) is)) = Ungl2 (last is) (min nb (k - last is))"
proof -
  obtain js x where split: "is = js @ [x]"
    using assms by (cases "is" rule: rev_cases) auto
  have "block_calls m k nb x \<noteq> []" "last (block_calls m k nb x) = Ungl2 x (min nb (k - x))"
    by (simp_all add: block_calls_def Let_def)
  then show ?thesis
    unfolding split by simp
qed

lemma fold_unglq_block_matrixT:
  "nrows (matrixT (fold (unglq_block K tau nb) is s)) = nrows (matrixT s) \<and>
   ncols (matrixT (fold (unglq_block K tau nb) is s)) = ncols (matrixT s)"
  by (induction "is" arbitrary: s) (simp_all add: unglq_block_matrixT_extents)

lemma block_starts_nonempty: "block_starts k nb \<noteq> []"
  by (simp add: block_starts_def)

section \<open>unglq: the claims\<close>



text \<open>
  Claim C3. A call of \<open>unglq\<close> with more reflectors than columns (\<open>k > n\<close>) fails with
  an invalid-argument failure before anything is written: the matrix is the one passed
  in and no kernel has been called (the world is the one passed in). The legacy \<open>ung2r\<close> answers \<open>k > n\<close>, and \<open>n > m\<close>,
  with a negative result code and leaves the array as it was.
\<close>

theorem oversized_k_rejected:
  fixes A :: "'a::{zero,one} matrix"
  shows
  "(ncols A < size_vec tau \<longrightarrow>
      (case unglq K W A tau opts w of
         None \<Rightarrow> False
       | Some (r, s) \<Rightarrow> r = Inl Invalid_Argument \<and> mat s = A \<and> world s = w)) \<and>
   (n < k \<or> m < n \<longrightarrow>
      fst (ung2r core m n k B lda t) < 0 \<and> snd (ung2r core m n k B lda t) = B)"
  by (auto simp: unglq_def ung2r_def tlapack_check_false_def Let_def)

theorem oversized_k_rejected_witness:
  "ncols (sample_matrix 2 3) < size_vec (sample_tau 4) \<and>
   (case unglq (recording 3 sample_kernels) sample_work (sample_matrix 2 3) (sample_tau 4)
           default_opts (0, []) of
      None \<Rightarrow> False
    | Some (r, s) \<Rightarrow> r = Inl Invalid_Argument \<and> mat s = sample_matrix 2 3 \<and> world s = (0, [])) \<and>
   ((3 :: int) < 4 \<or> (5 :: int) < 3) \<and>
   fst (ung2r sample_core 5 3 4 7 5 ()) < 0 \<and> snd (ung2r sample_core 5 3 4 7 5 ()) = 7 \<and>
   ((2 :: int) < 1 \<or> (2 :: int) < 3) \<and>
   fst (ung2r sample_core 2 3 1 7 2 ()) < 0 \<and> snd (ung2r sample_core 2 3 1 7 2 ()) = 7"
proof -
  have h: "ncols (sample_matrix 2 3) < size_vec (sample_tau 4)"
    by (simp add: sample_tau_def sample_matrix_def)
  show ?thesis
    using h
      oversized_k_rejected [where A = "sample_matrix 2 3" and tau = "sample_tau 4"
        and K = "recording 3 sample_kernels" and W = sample_work and opts = default_opts
        and w = "(0, [])" and n = 3 and k = 4 and m = 5 and core = sample_core and B = 7 and lda = 5 and t = "()"]
      oversized_k_rejected [where A = "sample_matrix 2 3" and tau = "sample_tau 4"
        and K = "recording 3 sample_kernels" and W = sample_work and opts = default_opts
        and w = "(0, [])" and n = 3 and k = 1 and m = 2 and core = sample_core and B = 7 and lda = 2 and t = "()"]
    by simp
qed

text \<open>
  Claim C4, as amended. With no reflectors (\<open>k = 0\<close>) and \<open>n > 0\<close> columns the call is not
  rejected and writes nothing outside the \<open>m\<close>-by-\<open>n\<close> extent of \<open>A\<close>. It leaves \<open>A\<close>
  untouched only when \<open>A\<close> has no rows: when \<open>m > 0\<close> all rows lie beyond the reflector
  rows and are seeded, so every off-diagonal entry of \<open>A\<close> becomes 0.
\<close>

theorem unglq_no_reflectors:
  fixes A :: "'a::{zero,one} matrix"
  assumes "size_vec tau = 0" "0 < ncols A"
  shows "case unglq K W A tau opts w of
           None \<Rightarrow> False
         | Some (r, s) \<Rightarrow>
             r \<noteq> Inl Invalid_Argument \<and>
             nrows (mat s) = nrows A \<and> ncols (mat s) = ncols A \<and>
             (\<forall>i j. i < nrows A \<and> j < ncols A \<and> i \<noteq> j \<longrightarrow> entries (mat s) i j = 0) \<and>
             (\<forall>i j. \<not> (i < nrows A \<and> j < ncols A) \<longrightarrow> entries (mat s) i j = entries A i j)"
  using assms
  by (auto simp: unglq_def tlapack_check_false_def Let_def unglq_seed_no_reflectors)

theorem unglq_no_reflectors_witness:
  "size_vec (sample_tau 0) = 0 \<and> 0 < ncols (sample_matrix 2 3) \<and>
   (case unglq sample_kernels sample_work (sample_matrix 2 3) (sample_tau 0) default_opts 0 of
      None \<Rightarrow> False
    | Some (r, s) \<Rightarrow>
        r \<noteq> Inl Invalid_Argument \<and>
        (0 :: idx_t) < nrows (sample_matrix 2 3) \<and> (1 :: idx_t) < ncols (sample_matrix 2 3) \<and>
        (0 :: idx_t) \<noteq> 1 \<and> entries (mat s) 0 1 = 0 \<and>
        \<not> ((4 :: idx_t) < nrows (sample_matrix 2 3) \<and> (1 :: idx_t) < ncols (sample_matrix 2 3)) \<and>
        entries (mat s) 4 1 = 5)"
proof -
  have h1: "size_vec (sample_tau 0) = 0" by (simp add: sample_tau_def)
  have h2: "0 < ncols (sample_matrix 2 3)" by (simp add: sample_matrix_def)
  show ?thesis
    using h1 h2 unglq_no_reflectors [OF h1 h2, where K = sample_kernels and W = sample_work
        and opts = default_opts and w = 0]
    by (auto simp: sample_matrix_def split: option.splits)
qed

text \<open>
  The claim as it was stated fails on a 2-by-3 matrix of fives with an empty \<open>tau\<close>: the
  call does not return 0, and the entry \<open>(0,1)\<close> has been overwritten.
\<close>

theorem unglq_no_reflectors_counterexample:
  "outcome (unglq sample_kernels sample_work (sample_matrix 2 3) (sample_tau 0) default_opts 0) =
     Some (Inl Division_By_Zero) \<and>
   entry_after (unglq sample_kernels sample_work (sample_matrix 2 3) (sample_tau 0) default_opts 0)
     0 1 = Some 0 \<and>
   entries (sample_matrix 2 3) 0 1 = 5"
  by (simp add: outcome_def entry_after_def unglq_def tlapack_check_false_def Let_def
      unglq_seed_no_reflectors sample_matrix_def sample_tau_def default_opts_def)

text \<open>
  Claim C5 has the rows \<open>k..m-1\<close> seeded as rows of the unit matrix whenever \<open>m > k\<close>.
  For \<open>k \<ge> 1\<close> that is what the seeding does (\<open>unglq_seed_rows\<close>). With no reflectors
  the comparison \<^verbatim>\<open>j > k - 1\<close> is made against the wrapped value of \<open>0 - 1\<close> and never
  holds, so the diagonal entries are left at 0: on a 1-by-1 matrix the entry \<open>(0,0)\<close>,
  which is to be 1, is 0.
\<close>

theorem unglq_seed_without_reflectors:
  "entry_after (unglq sample_kernels sample_work (sample_matrix 1 1) (sample_tau 0) default_opts 0)
     0 0 = Some 0 \<and>
   unglq_seed 1 1 0 (entries (sample_matrix 1 1)) 0 0 = 0"
  by (simp add: entry_after_def unglq_def tlapack_check_false_def Let_def
      unglq_seed_no_reflectors sample_matrix_def sample_tau_def default_opts_def)

text \<open>
  Claim C6. When the block at \<open>i\<close>, of \<open>ib = min(nb, k-i)\<close> reflectors, has been
  processed, every entry \<open>A(l,j)\<close> of its rows \<open>i \<le> l < i + ib\<close> in the columns \<open>j < i\<close>
  before it is zero, whatever the kernels did. (For a block of a run \<open>i < k\<close>, so
  \<open>i + ib \<le> k\<close> does not wrap.)
\<close>

theorem unglq_block_clears_leading_columns:
  fixes K :: "('a::{zero,one}, 'w) kernels"
  shows "\<forall>l j. i \<le> l \<and> l < i + min nb (size_vec tau - i) \<and> j < i \<longrightarrow>
           entries (mat (unglq_block K tau nb i s)) l j = 0"
proof -
  have "for_loop 0 i (\<lambda>j. for_loop i (i + ib) (\<lambda>l. put l j (0::'a))) E r c =
        (if 0 \<le> c \<and> c < i \<and> (i \<le> r \<and> r < i + ib) then 0 else E r c)" for ib E r c
    by (rule for_loop_cells [where key = "\<lambda>r c. c" and P = "\<lambda>r c. i \<le> r \<and> r < i + ib"
          and f = "\<lambda>r c. 0"])
       (auto simp: column_fill)
  then show ?thesis
    by (simp add: unglq_block_def Let_def split_def)
qed

theorem unglq_block_clears_leading_columns_witness:
  "(2 :: idx_t) \<le> 3 \<and> (3 :: idx_t) < 2 + min 2 (size_vec (sample_tau 4) - 2) \<and> (1 :: idx_t) < 2 \<and>
   entries (mat (unglq_block sample_kernels (sample_tau 4) 2 2 sample_state)) 3 1 = 0 \<and>
   entries (mat sample_state) 3 1 = 5"
proof -
  have h: "(2 :: idx_t) \<le> 3 \<and> (3 :: idx_t) < 2 + min 2 (size_vec (sample_tau 4) - 2) \<and>
      (1 :: idx_t) < 2"
    by (simp add: sample_tau_def)
  show ?thesis
    using h unglq_block_clears_leading_columns [where i = 2 and nb = 2 and tau = "sample_tau 4"
        and K = sample_kernels and s = sample_state, rule_format, of 3 1]
    by (simp add: sample_state_def sample_matrix_def)
qed

text \<open>
  Claim C8. The block size is an option of the call with default 32. Both the workspace
  query and the driver use \<open>min(opts.nb, k)\<close>: the query sizes its scratch with it, and
  in a run the scratch matrix has that extent, every kernel call (as the kernels record
  them) is made for a block of \<open>min(min(opts.nb, k), k - i)\<close> reflectors, never more than
  \<open>min(opts.nb, k)\<close> and never more than \<open>k\<close>, and the block at 0, the last one
  processed, has exactly \<open>min(opts.nb, k)\<close>.
\<close>

theorem block_size_clamped:
  fixes A :: "'a::{zero,one} matrix" and K :: "('a, 'w) kernels" and w :: 'w
  shows
  "opt_nb default_opts = 32 \<and>
   unglq_worksize sizeof_T add_work larfb_worksize A tau opts =
     add_work \<lparr>wi_m = min (opt_nb opts) (size_vec tau) * sizeof_T,
               wi_n = min (opt_nb opts) (size_vec tau)\<rparr>
       (larfb_worksize
          (slice A (0, min (opt_nb opts) (size_vec tau)) (0, nrows A))
          (slice A (0, min (opt_nb opts) (size_vec tau)) (0, min (opt_nb opts) (size_vec tau)))
          A opts) \<and>
   (1 \<le> size_vec tau \<and> size_vec tau \<le> ncols A \<and> 1 \<le> opt_nb opts \<and>
    unat (size_vec tau) < 2 ^ 63 \<longrightarrow>
      (case unglq K W A tau opts w of
         None \<Rightarrow> False
       | Some (r, s) \<Rightarrow>
           nrows (matrixT s) = min (opt_nb opts) (size_vec tau) \<and>
           ncols (matrixT s) = min (opt_nb opts) (size_vec tau)) \<and>
      (case unglq (recording (ncols A) K) W A tau opts (w, []) of
         None \<Rightarrow> False
       | Some (r, s) \<Rightarrow>
           (\<forall>c \<in> set (snd (world s)).
              call_size c = min (min (opt_nb opts) (size_vec tau)) (size_vec tau - call_start c) \<and>
              call_size c \<le> min (opt_nb opts) (size_vec tau) \<and>
              call_size c \<le> size_vec tau) \<and>
           last (snd (world s)) = Ungl2 0 (min (opt_nb opts) (size_vec tau))))"
proof -
  let ?k = "size_vec tau"
  let ?nb = "min (opt_nb opts) ?k"
  have run: "(case unglq K W A tau opts w of
         None \<Rightarrow> False
       | Some (r, s) \<Rightarrow> nrows (matrixT s) = ?nb \<and> ncols (matrixT s) = ?nb) \<and>
      (case unglq (recording (ncols A) K) W A tau opts (w, []) of
         None \<Rightarrow> False
       | Some (r, s) \<Rightarrow>
           (\<forall>c \<in> set (snd (world s)).
              call_size c = min ?nb (?k - call_start c) \<and> call_size c \<le> ?nb \<and>
              call_size c \<le> ?k) \<and>
           last (snd (world s)) = Ungl2 0 ?nb)"
    if valid: "1 \<le> ?k" "?k \<le> ncols A" "1 \<le> opt_nb opts" "unat ?k < 2 ^ 63"
  proof -
    have sizes: "call_size c = min ?nb (?k - call_start c) \<and> call_size c \<le> ?nb \<and>
        call_size c \<le> ?k"
      if "c \<in> set (concat (map (block_calls (nrows A) ?k ?nb) (block_starts ?k ?nb)))" for c
    proof -
      from that obtain i where "c \<in> set (block_calls (nrows A) ?k ?nb i)" by auto
      then have eq: "call_size c = min ?nb (?k - call_start c)"
        using block_calls_sizes by blast
      have "min ?nb (?k - call_start c) \<le> ?nb" by (rule min.cobounded1)
      moreover have "?nb \<le> ?k" by (rule min.cobounded2)
      ultimately show ?thesis using eq by simp
    qed
    have lst: "last (concat (map (block_calls (nrows A) ?k ?nb) (block_starts ?k ?nb))) =
        Ungl2 0 ?nb"
      by (simp add: last_block_calls [OF block_starts_nonempty] block_starts_ends)
    define t0 :: "('a, 'w) unglq_state" where "t0 =
        \<lparr>mat = A\<lparr>entries := unglq_seed (nrows A) (ncols A) ?k (entries A)\<rparr>,
          matrixT = \<lparr>nrows = ?nb, ncols = ?nb, entries = W\<rparr>, world = w\<rparr>"
    define t where "t = fold (unglq_block K tau ?nb) (block_starts ?k ?nb) t0"
    have rest: "unglq K W A tau opts w = Some (Inr 0, t)"
      unfolding t_def t0_def by (rule unglq_run [OF valid])
    have ts: "nrows (matrixT t) = ?nb \<and> ncols (matrixT t) = ?nb"
      unfolding t_def using fold_unglq_block_matrixT [of K tau ?nb "block_starts ?k ?nb" t0]
      by (simp add: t0_def)
    define s0 :: "('a, 'w \<times> call list) unglq_state" where "s0 =
        \<lparr>mat = A\<lparr>entries := unglq_seed (nrows A) (ncols A) ?k (entries A)\<rparr>,
          matrixT = \<lparr>nrows = ?nb, ncols = ?nb, entries = W\<rparr>, world = (w, [])\<rparr>"
    define s where
      "s = fold (unglq_block (recording (ncols A) K) tau ?nb) (block_starts ?k ?nb) s0"
    have res: "unglq (recording (ncols A) K) W A tau opts (w, []) = Some (Inr 0, s)"
      unfolding s_def s0_def by (rule unglq_run [OF valid])
    have "ncols (mat s0) = ncols A" by (simp add: s0_def)
    from fold_unglq_block [OF this, of K tau ?nb "block_starts ?k ?nb"]
    have cs: "snd (world s) =
        concat (map (block_calls (nrows A) ?k ?nb) (block_starts ?k ?nb))"
      by (simp add: s_def s0_def)
    have "(\<forall>c \<in> set (snd (world s)).
              call_size c = min ?nb (?k - call_start c) \<and> call_size c \<le> ?nb \<and>
              call_size c \<le> ?k) \<and>
           last (snd (world s)) = Ungl2 0 ?nb"
      unfolding cs using lst sizes by blast
    then show ?thesis
      unfolding res rest option.case prod.case using ts by blast
  qed
  show ?thesis
    using run by (simp add: default_opts_def unglq_worksize_def Let_def)
qed

theorem block_size_clamped_witness:
  "(1 :: idx_t) \<le> size_vec (sample_tau 4) \<and> size_vec (sample_tau 4) \<le> ncols (sample_matrix 5 5) \<and>
   (1 :: idx_t) \<le> opt_nb default_opts \<and> unat (size_vec (sample_tau 4)) < 2 ^ 63 \<and>
   min (opt_nb default_opts) (size_vec (sample_tau 4)) = 4 \<and>
   (case unglq sample_kernels sample_work (sample_matrix 5 5) (sample_tau 4) default_opts 0 of
      None \<Rightarrow> False
    | Some (r, s) \<Rightarrow> nrows (matrixT s) = 4 \<and> ncols (matrixT s) = 4) \<and>
   (case unglq (recording (ncols (sample_matrix 5 5)) sample_kernels) sample_work
           (sample_matrix 5 5) (sample_tau 4) default_opts (0, []) of
      None \<Rightarrow> False
    | Some (r, s) \<Rightarrow> last (snd (world s)) = Ungl2 0 4)"
proof -
  have h: "(1 :: idx_t) \<le> size_vec (sample_tau 4) \<and>
      size_vec (sample_tau 4) \<le> ncols (sample_matrix 5 5) \<and>
      (1 :: idx_t) \<le> opt_nb default_opts \<and> unat (size_vec (sample_tau 4)) < 2 ^ 63"
    by (simp add: sample_tau_def sample_matrix_def default_opts_def)
  have nb: "min (opt_nb default_opts) (size_vec (sample_tau 4)) = 4"
    by (simp add: sample_tau_def default_opts_def)
  note inst = block_size_clamped [where A = "sample_matrix 5 5" and tau = "sample_tau 4"
      and opts = default_opts and K = sample_kernels and W = sample_work and w = 0
      and sizeof_T = 8 and add_work = "\<lambda>a b. a"
      and larfb_worksize = "\<lambda>V T C opts. \<lparr>wi_m = 0, wi_n = 0\<rparr>"]
  from inst have "(case unglq sample_kernels sample_work (sample_matrix 5 5) (sample_tau 4)
        default_opts 0 of
      None \<Rightarrow> False
    | Some (r, s) \<Rightarrow> nrows (matrixT s) = 4 \<and> ncols (matrixT s) = 4) \<and>
   (case unglq (recording (ncols (sample_matrix 5 5)) sample_kernels) sample_work
           (sample_matrix 5 5) (sample_tau 4) default_opts (0, []) of
      None \<Rightarrow> False
    | Some (r, s) \<Rightarrow> last (snd (world s)) = Ungl2 0 4)"
    using h unfolding nb by (auto split: option.splits)
  then show ?thesis
    using h nb by simp
qed

section \<open>ung2r: the result codes\<close>

text \<open>
  Claim C7. The legacy \<open>ung2r\<close> answers the first argument that fails its check with
  minus the position of that argument: \<open>-1\<close> for \<open>m < 0\<close>, \<open>-2\<close> for \<open>n < 0\<close> or \<open>n > m\<close>,
  \<open>-3\<close> for \<open>k < 0\<close> or \<open>k > n\<close>, \<open>-5\<close> for \<open>lda < m\<close>, each time leaving the array as it
  was. With valid arguments and \<open>n = 0\<close> it returns 0 at once; with valid arguments
  and \<open>n > 0\<close> it returns what the routine it wraps returns.
\<close>

theorem ung2r_result_codes:
  "(m < 0 \<longrightarrow> ung2r core m n k B lda t = (- 1, B)) \<and>
   (0 \<le> m \<and> (n < 0 \<or> m < n) \<longrightarrow> ung2r core m n k B lda t = (- 2, B)) \<and>
   (0 \<le> m \<and> 0 \<le> n \<and> n \<le> m \<and> (k < 0 \<or> n < k) \<longrightarrow> ung2r core m n k B lda t = (- 3, B)) \<and>
   (0 \<le> m \<and> 0 \<le> n \<and> n \<le> m \<and> 0 \<le> k \<and> k \<le> n \<and> lda < m \<longrightarrow>
      ung2r core m n k B lda t = (- 5, B)) \<and>
   (0 \<le> m \<and> n = 0 \<and> k = 0 \<and> m \<le> lda \<longrightarrow> ung2r core m n k B lda t = (0, B)) \<and>
   (0 < n \<and> n \<le> m \<and> 0 \<le> k \<and> k \<le> n \<and> m \<le> lda \<longrightarrow>
      ung2r core m n k B lda t = core k (m, n, lda) B (t, min m n) (n - 1))"
  by (auto simp: ung2r_def tlapack_check_false_def)

theorem ung2r_result_codes_witness:
  "(- 1 :: int) < 0 \<and> ung2r sample_core (- 1) 0 0 7 1 () = (- 1, 7) \<and>
   (0 :: int) \<le> 2 \<and> (2 :: int) < 3 \<and> ung2r sample_core 2 3 0 7 2 () = (- 2, 7) \<and>
   (0 :: int) \<le> 3 \<and> (0 :: int) \<le> 2 \<and> (2 :: int) \<le> 3 \<and> (2 :: int) < 4 \<and>
   ung2r sample_core 3 2 4 7 3 () = (- 3, 7) \<and>
   (0 :: int) \<le> 1 \<and> (1 :: int) \<le> 2 \<and> (2 :: int) < 3 \<and>
   ung2r sample_core 3 2 1 7 2 () = (- 5, 7) \<and>
   (3 :: int) \<le> 3 \<and> ung2r sample_core 3 0 0 7 3 () = (0, 7) \<and>
   (0 :: int) < 2 \<and> ung2r sample_core 3 2 1 7 3 () = (0, 8)"
  using ung2r_result_codes [where core = sample_core and m = "- 1" and n = 0 and k = 0
      and B = 7 and lda = 1 and t = "()"]
    ung2r_result_codes [where core = sample_core and m = 2 and n = 3 and k = 0
      and B = 7 and lda = 2 and t = "()"]
    ung2r_result_codes [where core = sample_core and m = 3 and n = 2 and k = 4
      and B = 7 and lda = 3 and t = "()"]
    ung2r_result_codes [where core = sample_core and m = 3 and n = 2 and k = 1
      and B = 7 and lda = 2 and t = "()"]
    ung2r_result_codes [where core = sample_core and m = 3 and n = 0 and k = 0
      and B = 7 and lda = 3 and t = "()"]
    ung2r_result_codes [where core = sample_core and m = 3 and n = 2 and k = 1
      and B = 7 and lda = 3 and t = "()"]
  by (simp add: sample_core_def)

end
